theory Spec2Isabelle
  imports Main "HOL-Library.Multiset"
begin

section \<open>Zone selection (package az) and nodegroup labels (package label) of eksctl\<close>

subsection \<open>Errors and formatting\<close>

text \<open>
  A Go \<^verbatim>\<open>error\<close> value: the text its \<^verbatim>\<open>Error()\<close> method gives and what
  \<^verbatim>\<open>Unwrap()\<close> gives (\<open>None\<close> for an error that wraps nothing).
\<close>

datatype goerror = GoError (message: string) (unwrap: "goerror option")

text \<open>
  How a call can fail: it returns an error value, or the runtime panics
  (a nil pointer is dereferenced, a slice is indexed out of range).
\<close>

datatype failure = Err goerror | NilDereference | IndexOutOfRange

text \<open>\<^verbatim>\<open>%d\<close> of a non-negative \<^verbatim>\<open>int\<close>: its decimal digits.\<close>

function fmt_d :: "nat \<Rightarrow> string" where
  "fmt_d n = (if n < 10 then [''0123456789'' ! n]
              else fmt_d (n div 10) @ [''0123456789'' ! (n mod 10)])"
  by pat_completeness auto
termination
  by (relation "measure (\<lambda>n. n)") auto

text \<open>\<^verbatim>\<open>%v\<close> and \<^verbatim>\<open>%s\<close> of a \<^verbatim>\<open>[]string\<close>: the elements between brackets, one space apart.\<close>

fun join_space :: "string list \<Rightarrow> string" where
  "join_space [] = []"
| "join_space [x] = x"
| "join_space (x # y # ys) = x @ '' '' @ join_space (y # ys)"

definition fmt_strings :: "string list \<Rightarrow> string" where
  "fmt_strings xs = ''['' @ join_space xs @ '']''"

text \<open>\<^verbatim>\<open>fmt.Errorf\<close> without \<^verbatim>\<open>%w\<close>, and with a final \<^verbatim>\<open>%w\<close> that wraps \<open>e\<close>.\<close>

definition Errorf :: "string \<Rightarrow> goerror" where
  "Errorf text = GoError text None"

definition Errorf_w :: "string \<Rightarrow> goerror \<Rightarrow> goerror" where
  "Errorf_w text e = GoError (text @ message e) (Some e)"

subsection \<open>The EC2 interface\<close>

text \<open>
  \<^verbatim>\<open>ec2.AvailabilityZone\<close>: the SDK's fields are pointers to strings, \<open>None\<close> is nil.
\<close>

record AvailabilityZone =
  RegionName :: "string option"
  State :: "string option"
  ZoneId :: "string option"
  ZoneName :: "string option"

record Filter =
  Name :: string
  Values :: "string list"

record DescribeAvailabilityZonesInput =
  ZoneNames :: "string list"
  Filters :: "Filter list"

text \<open>
  \<^verbatim>\<open>ec2iface.EC2API\<close>, as far as package az uses it: the one call
  \<^verbatim>\<open>DescribeAvailabilityZones\<close>, which returns an error or the zones of its output.
\<close>

type_synonym EC2API = "DescribeAvailabilityZonesInput \<Rightarrow> goerror + AvailabilityZone list"

text \<open>The SDK's constant \<^verbatim>\<open>ec2.AvailabilityZoneStateAvailable\<close>.\<close>

definition AvailabilityZoneStateAvailable :: string where
  "AvailabilityZoneStateAvailable = ''available''"

definition makeFilter :: "string \<Rightarrow> string \<Rightarrow> Filter" where
  "makeFilter name v = \<lparr>Name = name, Values = [v]\<rparr>"

subsection \<open>Constants of package api\<close>

text \<open>
  Modelled from the spec: the constants of package \<^verbatim>\<open>api\<close>
  (\<^verbatim>\<open>pkg/apis/eksctl.io/v1alpha5\<close>), which is not among the source files.
  The spec gives MinRequired the value 2 and Recommended the value 3; the
  test of package az shows the degraded-capacity region to be us-east-1. The
  denylist's region is given its AWS name, cn-north-1.
\<close>

definition MinRequiredAvailabilityZones :: nat where
  "MinRequiredAvailabilityZones = 2"

definition RecommendedAvailabilityZones :: nat where
  "RecommendedAvailabilityZones = 3"

definition RegionUSEast1 :: string where
  "RegionUSEast1 = ''us-east-1''"

definition RegionCNNorth1 :: string where
  "RegionCNNorth1 = ''cn-north-1''"

text \<open>
  Modelled from the spec: \<^verbatim>\<open>strings.Contains\<close> of \<^verbatim>\<open>pkg/utils/strings\<close>, which is
  not among the source files: whether the string is an element of the list.
\<close>

definition strings_Contains :: "string list \<Rightarrow> string \<Rightarrow> bool" where
  "strings_Contains xs s = (s \<in> set xs)"

subsection \<open>Package az\<close>

text \<open>The map \<^verbatim>\<open>zoneIDsToAvoid\<close>; a region without an entry reads as the nil slice.\<close>

definition zoneIDsToAvoid :: "string \<Rightarrow> string list" where
  "zoneIDsToAvoid region = (if region = RegionCNNorth1 then [''cnn1-az4''] else [])"

text \<open>
  \<^verbatim>\<open>filterZones\<close>: the loop over the zones, with the list built so far.
  \<^verbatim>\<open>*z.ZoneId\<close> is read for every zone, \<^verbatim>\<open>*z.ZoneName\<close> only for a zone that is kept.
\<close>

fun filterZones_loop :: "string list \<Rightarrow> AvailabilityZone list \<Rightarrow> string list \<Rightarrow> failure + string list" where
  "filterZones_loop azsToAvoid [] filteredZones = Inr filteredZones"
| "filterZones_loop azsToAvoid (z # zones) filteredZones =
     (case ZoneId z of
        None \<Rightarrow> Inl NilDereference
      | Some zid \<Rightarrow>
          if \<not> strings_Contains azsToAvoid zid then
            (case ZoneName z of
               None \<Rightarrow> Inl NilDereference
             | Some zname \<Rightarrow> filterZones_loop azsToAvoid zones (filteredZones @ [zname]))
          else filterZones_loop azsToAvoid zones filteredZones)"

definition filterZones :: "string \<Rightarrow> AvailabilityZone list \<Rightarrow> failure + string list" where
  "filterZones region zones = filterZones_loop (zoneIDsToAvoid region) zones []"

definition availabilityZonesInput :: "string \<Rightarrow> DescribeAvailabilityZonesInput" where
  "availabilityZonesInput region =
     \<lparr>ZoneNames = [],
      Filters = [makeFilter ''region-name'' region,
                 makeFilter ''state'' AvailabilityZoneStateAvailable]\<rparr>"

definition getAvailabilityZones :: "EC2API \<Rightarrow> string \<Rightarrow> failure + string list" where
  "getAvailabilityZones ec2API region =
     (let input = availabilityZonesInput region
      in case ec2API input of
           Inl err \<Rightarrow>
             Inl (Err (Errorf_w (''error getting availability zones for region '' @ region @ '': '') err))
         | Inr output \<Rightarrow> filterZones region output)"

text \<open>
  The inner loop of \<^verbatim>\<open>randomSelectionOfZones\<close>, over the permutation \<^verbatim>\<open>rand.Perm\<close>
  returned: each index appends one zone, and the loop breaks when the desired
  number is reached.
\<close>

fun appendByPerm :: "string list \<Rightarrow> nat \<Rightarrow> nat list \<Rightarrow> string list \<Rightarrow> failure + string list" where
  "appendByPerm availableZones desired [] zones = Inr zones"
| "appendByPerm availableZones desired (rn # rns) zones =
     (if rn < length availableZones then
        (let zones' = zones @ [availableZones ! rn]
         in if length zones' = desired then Inr zones'
            else appendByPerm availableZones desired rns zones')
      else Inl IndexOutOfRange)"

text \<open>
  The outer loop. Its randomness is a parameter: \<open>perms k\<close> is what the call
  \<^verbatim>\<open>rand.Perm(len(availableZones))\<close> of round \<open>k\<close> returns, with that round's fresh
  seed. The loop may run forever, which is the value \<open>None\<close>.
\<close>

partial_function (option) selectionLoop ::
  "(nat \<Rightarrow> nat list) \<Rightarrow> nat \<Rightarrow> string list \<Rightarrow> nat \<Rightarrow> string list \<Rightarrow> (failure + string list) option" where
  "selectionLoop perms k availableZones desired zones =
     (if length zones < desired then
        (case appendByPerm availableZones desired (perms k) zones of
           Inl f \<Rightarrow> Some (Inl f)
         | Inr zones' \<Rightarrow> selectionLoop perms (Suc k) availableZones desired zones')
      else Some (Inr zones))"

definition desiredNumberOfAZs :: "string \<Rightarrow> nat" where
  "desiredNumberOfAZs region =
     (if region = RegionUSEast1 then MinRequiredAvailabilityZones else RecommendedAvailabilityZones)"

definition randomSelectionOfZones ::
  "(nat \<Rightarrow> nat list) \<Rightarrow> string \<Rightarrow> string list \<Rightarrow> (failure + string list) option" where
  "randomSelectionOfZones perms region availableZones =
     selectionLoop perms 0 availableZones (desiredNumberOfAZs region) []"

definition GetAvailabilityZones ::
  "EC2API \<Rightarrow> (nat \<Rightarrow> nat list) \<Rightarrow> string \<Rightarrow> (failure + string list) option" where
  "GetAvailabilityZones ec2API perms region =
     (case getAvailabilityZones ec2API region of
        Inl f \<Rightarrow> Some (Inl f)
      | Inr zones \<Rightarrow>
          (let numberOfZones = length zones
           in if numberOfZones < MinRequiredAvailabilityZones then
                Some (Inl (Err (Errorf (''only '' @ fmt_d numberOfZones @ '' zones discovered ''
                                        @ fmt_strings zones @ '', at least ''
                                        @ fmt_d MinRequiredAvailabilityZones @ '' are required''))))
              else if numberOfZones < RecommendedAvailabilityZones then Some (Inr zones)
              else randomSelectionOfZones perms region zones))"

text \<open>
  \<^verbatim>\<open>api.ClusterConfig\<close>, as far as \<^verbatim>\<open>SetLocalZones\<close> reads and writes it; every
  other field of the configuration is the record's extension.
\<close>

record ClusterVPC =
  ID :: string

record ClusterConfig =
  LocalZones :: "string list"
  VPC :: ClusterVPC

text \<open>What \<^verbatim>\<open>SetLocalZones\<close> does to the world besides writing the configuration.\<close>

datatype event = Query DescribeAvailabilityZonesInput | LogWarning string

definition localZonesWarning :: string where
  "localZonesWarning = ''ignoring localZones since existing VPC ID was specified; Local Zones are currently only supported for creating VPCs, not for creating EKS clusters. For more info, see: https://docs.aws.amazon.com/eks/latest/userguide/local-zones.html''"

definition localZonesInput :: "string list \<Rightarrow> string \<Rightarrow> DescribeAvailabilityZonesInput" where
  "localZonesInput zoneNames region =
     \<lparr>ZoneNames = zoneNames,
      Filters = [makeFilter ''region-name'' region, makeFilter ''zone-type'' ''local-zone'',
                 makeFilter ''state'' ''available'']\<rparr>"

text \<open>
  \<^verbatim>\<open>SetLocalZones\<close> returns the configuration as the call leaves it, the error
  (\<open>None\<close> is nil) and the events in the order they happened.
\<close>

definition SetLocalZones ::
  "'a ClusterConfig_scheme \<Rightarrow> EC2API \<Rightarrow> string \<Rightarrow> 'a ClusterConfig_scheme \<times> failure option \<times> event list" where
  "SetLocalZones spec ec2Api region =
     (if length (LocalZones spec) = 0 then (spec, None, [])
      else
        (let warned = (if ID (VPC spec) \<noteq> [] then [LogWarning localZonesWarning] else []);
             input = localZonesInput (LocalZones spec) region
         in case ec2Api input of
              Inl err \<Rightarrow>
                (spec,
                 Some (Err (Errorf_w (''error validating local zone(s) '' @ fmt_strings (LocalZones spec) @ '': '') err)),
                 warned @ [Query input])
            | Inr output \<Rightarrow>
                (case filterZones region output of
                   Inl f \<Rightarrow> (spec, Some f, warned @ [Query input])
                 | Inr filteredZones \<Rightarrow>
                     (spec\<lparr>LocalZones := filteredZones\<rparr>, None, warned @ [Query input]))))"

subsection \<open>Package label\<close>

text \<open>
  Modelled from the spec: the Attribute Manager (\<^verbatim>\<open>label.Manager\<close> with its
  \<^verbatim>\<open>Get\<close>, \<^verbatim>\<open>Set\<close> and \<^verbatim>\<open>Unset\<close>), its two collaborators and the
  classification of the Stack Service's errors. Only the manager's test is
  among the source files. An error of a collaborator is a control-plane error
  of the validation class, a failure of another class, or a layer that wraps
  an error under a message.
\<close>

datatype svc_error = ValidationClass string | OtherClass string | Wrapped string svc_error

fun unwrapped :: "svc_error \<Rightarrow> svc_error" where
  "unwrapped (Wrapped text e) = unwrapped e"
| "unwrapped e = e"

fun isValidationClass :: "svc_error \<Rightarrow> bool" where
  "isValidationClass (ValidationClass text) = True"
| "isValidationClass e = False"

definition fallbackTriggering :: "svc_error \<Rightarrow> bool" where
  "fallbackTriggering e = isValidationClass (unwrapped e)"

type_synonym TagSet = "string \<rightharpoonup> string"

type_synonym RemoteTags = "string \<rightharpoonup> string option"

record StackService =
  GetLabels :: "string \<Rightarrow> svc_error + TagSet"
  UpdateLabels :: "string \<Rightarrow> TagSet \<Rightarrow> string list \<Rightarrow> svc_error option"

record RemoteAPI =
  DescribeNodegroup :: "string \<Rightarrow> string \<Rightarrow> svc_error + RemoteTags"
  UpdateNodegroupConfig :: "string \<Rightarrow> string \<Rightarrow> TagSet \<Rightarrow> string list \<Rightarrow> svc_error option"

text \<open>A call to the remote control plane: describe a group, or update its labels.\<close>

datatype remote_call =
    Describe string string
  | Update string string TagSet "string list"

record Summary =
  Cluster :: string
  NodeGroup :: string
  Labels :: TagSet

record Manager =
  clusterName :: string
  service :: StackService
  eksAPI :: RemoteAPI

text \<open>
  Modelled from the spec: the conversion of the remote tag structure (string
  to nullable string) into a TagSet. The spec does not say what a null value
  becomes; here its key is left out.
\<close>

definition toTagSet :: "RemoteTags \<Rightarrow> TagSet" where
  "toTagSet remote = (\<lambda>k. case remote k of Some (Some v) \<Rightarrow> Some v | _ \<Rightarrow> None)"

text \<open>
  Modelled from the spec: each operation returns its result and the calls it
  made to the remote control plane, in order.
\<close>

definition Get :: "Manager \<Rightarrow> string \<Rightarrow> (svc_error + Summary list) \<times> remote_call list" where
  "Get m nodeGroupName =
     (case GetLabels (service m) nodeGroupName of
        Inr tags \<Rightarrow>
          (Inr [\<lparr>Cluster = clusterName m, NodeGroup = nodeGroupName, Labels = tags\<rparr>], [])
      | Inl e \<Rightarrow>
          if fallbackTriggering e then
            (case DescribeNodegroup (eksAPI m) (clusterName m) nodeGroupName of
               Inl e' \<Rightarrow> (Inl e', [Describe (clusterName m) nodeGroupName])
             | Inr remote \<Rightarrow>
                 (Inr [\<lparr>Cluster = clusterName m, NodeGroup = nodeGroupName, Labels = toTagSet remote\<rparr>],
                  [Describe (clusterName m) nodeGroupName]))
          else (Inl e, []))"

definition Set_labels :: "Manager \<Rightarrow> string \<Rightarrow> TagSet \<Rightarrow> svc_error option \<times> remote_call list" where
  "Set_labels m nodeGroupName tags =
     (case UpdateLabels (service m) nodeGroupName tags [] of
        None \<Rightarrow> (None, [])
      | Some e \<Rightarrow>
          if fallbackTriggering e then
            (UpdateNodegroupConfig (eksAPI m) (clusterName m) nodeGroupName tags [],
             [Update (clusterName m) nodeGroupName tags []])
          else (Some e, []))"

definition Unset :: "Manager \<Rightarrow> string \<Rightarrow> string list \<Rightarrow> svc_error option \<times> remote_call list" where
  "Unset m nodeGroupName keys =
     (case UpdateLabels (service m) nodeGroupName Map.empty keys of
        None \<Rightarrow> (None, [])
      | Some e \<Rightarrow>
          if fallbackTriggering e then
            (UpdateNodegroupConfig (eksAPI m) (clusterName m) nodeGroupName Map.empty keys,
             [Update (clusterName m) nodeGroupName Map.empty keys])
          else (Some e, []))"

subsection \<open>Notions the properties are stated with\<close>

text \<open>A zone as the data model has it: it carries its identifier and its name.\<close>

definition wellFormedZone :: "AvailabilityZone \<Rightarrow> bool" where
  "wellFormedZone z = (ZoneId z \<noteq> None \<and> ZoneName z \<noteq> None)"

text \<open>A zone is denylisted in a region when the region's table lists its identifier.\<close>

definition denylisted :: "string \<Rightarrow> AvailabilityZone \<Rightarrow> bool" where
  "denylisted region z =
     (case ZoneId z of None \<Rightarrow> False | Some zid \<Rightarrow> zid \<in> set (zoneIDsToAvoid region))"

text \<open>
  What \<^verbatim>\<open>rand.Perm(n)\<close> promises: a permutation of the integers \<open>0\<close> to \<open>n - 1\<close>;
  and a source of randomness that keeps the promise in every round.
\<close>

definition isPerm :: "nat \<Rightarrow> nat list \<Rightarrow> bool" where
  "isPerm n p = (distinct p \<and> set p = {0..<n})"

definition permSource :: "nat \<Rightarrow> (nat \<Rightarrow> nat list) \<Rightarrow> bool" where
  "permSource n perms = (\<forall>k. isPerm n (perms k))"

definition isQuery :: "event \<Rightarrow> bool" where
  "isQuery ev = (case ev of Query input \<Rightarrow> True | LogWarning text \<Rightarrow> False)"

subsection \<open>Test fixtures\<close>

text \<open>The helpers of \<^verbatim>\<open>az_test.go\<close> that build a zone.\<close>

definition createAvailabilityZoneWithID :: "string \<Rightarrow> string \<Rightarrow> string \<Rightarrow> string \<Rightarrow> AvailabilityZone" where
  "createAvailabilityZoneWithID region state zone zoneID =
     \<lparr>RegionName = Some region, State = Some state, ZoneId = Some zoneID, ZoneName = Some zone\<rparr>"

definition createAvailabilityZone :: "string \<Rightarrow> string \<Rightarrow> string \<Rightarrow> AvailabilityZone" where
  "createAvailabilityZone region state zone =
     createAvailabilityZoneWithID region state zone (''id-'' @ zone)"

text \<open>An EC2 stand-in that answers every query alike, and a source of randomness that
  returns the same permutation in every round.\<close>

definition stubEC2 :: "goerror + AvailabilityZone list \<Rightarrow> EC2API" where
  "stubEC2 answer = (\<lambda>input. answer)"

definition fixedPerms :: "nat list \<Rightarrow> nat \<Rightarrow> nat list" where
  "fixedPerms p = (\<lambda>k. p)"

definition zonesOf :: "string \<Rightarrow> string list \<Rightarrow> AvailabilityZone list" where
  "zonesOf region names = map (createAvailabilityZone region AvailabilityZoneStateAvailable) names"

definition cnNorthZones :: "AvailabilityZone list" where
  "cnNorthZones =
     [createAvailabilityZone RegionCNNorth1 AvailabilityZoneStateAvailable ''zone1'',
      createAvailabilityZone RegionCNNorth1 AvailabilityZoneStateAvailable ''zone2'',
      createAvailabilityZoneWithID RegionCNNorth1 AvailabilityZoneStateAvailable ''zone3'' ''cnn1-az4'']"

definition localZonesAnswer :: "AvailabilityZone list" where
  "localZonesAnswer =
     [createAvailabilityZoneWithID RegionCNNorth1 AvailabilityZoneStateAvailable ''cnn1-az4'' ''cnn1-az4'',
      createAvailabilityZone RegionCNNorth1 AvailabilityZoneStateAvailable ''zone1'']"

definition testConfig :: "string list \<Rightarrow> string \<Rightarrow> ClusterConfig" where
  "testConfig zones vpcId = \<lparr>LocalZones = zones, VPC = \<lparr>ID = vpcId\<rparr>\<rparr>"

text \<open>
  The doubles of the manager's test: a Stack Service and a remote control plane
  that answer every call alike, the manager of cluster "foo", the wrapped
  validation error and the plain error the test lets the Stack Service return.
\<close>

definition fakeService :: "svc_error + TagSet \<Rightarrow> svc_error option \<Rightarrow> StackService" where
  "fakeService getAnswer updateAnswer =
     \<lparr>GetLabels = (\<lambda>nodeGroupName. getAnswer),
      UpdateLabels = (\<lambda>nodeGroupName tags keys. updateAnswer)\<rparr>"

definition mockEKS :: "svc_error + RemoteTags \<Rightarrow> svc_error option \<Rightarrow> RemoteAPI" where
  "mockEKS describeAnswer updateAnswer =
     \<lparr>DescribeNodegroup = (\<lambda>cluster nodeGroupName. describeAnswer),
      UpdateNodegroupConfig = (\<lambda>cluster nodeGroupName tags keys. updateAnswer)\<rparr>"

definition testManager :: "StackService \<Rightarrow> RemoteAPI \<Rightarrow> Manager" where
  "testManager svc eks = \<lparr>clusterName = ''foo'', service = svc, eksAPI = eks\<rparr>"

definition validationError :: svc_error where
  "validationError = Wrapped ''omg what'' (ValidationClass ''ValidationError'')"

definition somethingTerrible :: svc_error where
  "somethingTerrible = OtherClass ''something-terrible''"

definition ownedElsewhere :: Manager where
  "ownedElsewhere =
     testManager (fakeService (Inl validationError) (Some validationError))
       (mockEKS (Inr [''k1'' \<mapsto> Some ''v1'']) None)"

definition brokenService :: Manager where
  "brokenService =
     testManager (fakeService (Inl somethingTerrible) (Some somethingTerrible))
       (mockEKS (Inr [''k1'' \<mapsto> Some ''v1'']) None)"

subsection \<open>The loops of the random selection\<close>

lemma isPerm_length: "isPerm n p \<Longrightarrow> length p = n"
  unfolding isPerm_def by (metis distinct_card card_atLeastLessThan diff_zero)

lemma isPerm_bound: "isPerm n p \<Longrightarrow> \<forall>i\<in>set p. i < n"
  unfolding isPerm_def by auto

lemma appendByPerm_exact:
  "\<forall>i\<in>set p. i < length av \<Longrightarrow> length zs < d \<Longrightarrow>
   appendByPerm av d p zs = Inr (zs @ map ((!) av) (take (d - length zs) p))"
proof (induction p arbitrary: zs)
  case Nil
  then show ?case by simp
next
  case (Cons rn rns)
  have rn: "rn < length av" using Cons.prems(1) by simp
  show ?case
  proof (cases "Suc (length zs) = d")
    case True
    then have "d - length zs = Suc 0" by simp
    then show ?thesis using rn True by simp
  next
    case False
    then have lt: "length (zs @ [av ! rn]) < d" using Cons.prems(2) by simp
    have "d - length zs = Suc (d - length (zs @ [av ! rn]))" using lt by simp
    then show ?thesis
      using rn False Cons.IH[OF _ lt] Cons.prems(1) by (simp add: Let_def)
  qed
qed

lemma appendByPerm_subset:
  "appendByPerm av d p zs = Inr out \<Longrightarrow> set out \<subseteq> set zs \<union> set av"
proof (induction p arbitrary: zs)
  case Nil
  then show ?case by simp
next
  case (Cons rn rns)
  show ?case
  proof (cases "rn < length av")
    case False
    then show ?thesis using Cons.prems by simp
  next
    case True
    show ?thesis
    proof (cases "Suc (length zs) = d")
      case True
      with \<open>rn < length av\<close> Cons.prems show ?thesis by auto
    next
      case False
      with \<open>rn < length av\<close> Cons.prems
      have "appendByPerm av d rns (zs @ [av ! rn]) = Inr out" by (simp add: Let_def)
      from Cons.IH[OF this] \<open>rn < length av\<close> show ?thesis by auto
    qed
  qed
qed

lemma selectionLoop_done:
  "\<not> length zs < d \<Longrightarrow> selectionLoop perms k av d zs = Some (Inr zs)"
  by (subst selectionLoop.simps) simp

lemma selectionLoop_step:
  "length zs < d \<Longrightarrow> appendByPerm av d (perms k) zs = Inr zs' \<Longrightarrow>
   selectionLoop perms k av d zs = selectionLoop perms (Suc k) av d zs'"
  by (subst selectionLoop.simps) simp

lemma selectionLoop_terminates:
  assumes ps: "permSource (length av) perms" and ne: "av \<noteq> []"
  shows "length zs \<le> d \<Longrightarrow>
    \<exists>out. selectionLoop perms k av d zs = Some (Inr out) \<and> length out = d \<and> set out \<subseteq> set zs \<union> set av"
proof (induction "d - length zs" arbitrary: zs k rule: less_induct)
  case less
  show ?case
  proof (cases "length zs < d")
    case False
    then show ?thesis using less.prems selectionLoop_done[of zs d perms k av] by auto
  next
    case True
    let ?p = "perms k"
    have pk: "isPerm (length av) ?p" using ps by (simp add: permSource_def)
    have bound: "\<forall>i\<in>set ?p. i < length av" using isPerm_bound[OF pk] .
    have len: "length ?p = length av" using isPerm_length[OF pk] .
    let ?zs' = "zs @ map ((!) av) (take (d - length zs) ?p)"
    have ap: "appendByPerm av d ?p zs = Inr ?zs'" using appendByPerm_exact[OF bound True] .
    have l': "length ?zs' = length zs + min (length av) (d - length zs)" by (simp add: len)
    have pos: "0 < length av" using ne by simp
    have "0 < min (length av) (d - length zs)" using pos True by simp
    then have dec: "d - length ?zs' < d - length zs" using l' True by arith
    have le: "length ?zs' \<le> d" using l' True by simp
    from less.hyps[OF dec le, of "Suc k"] obtain out where
      o: "selectionLoop perms (Suc k) av d ?zs' = Some (Inr out)" "length out = d"
         "set out \<subseteq> set ?zs' \<union> set av" by blast
    have sub: "set ?zs' \<subseteq> set zs \<union> set av" using appendByPerm_subset[OF ap] .
    show ?thesis using selectionLoop_step[where perms=perms and k=k, OF True ap] o sub by auto
  qed
qed

lemma selectionLoop_diverges_aux:
  assumes "selectionLoop perms k av d zs = Some r"
  shows "(\<forall>j. perms j = []) \<longrightarrow> av = [] \<longrightarrow> length zs < d \<longrightarrow> False"
proof (rule selectionLoop.raw_induct[where P = "\<lambda>perms k av d zs r. (\<forall>j. perms j = []) \<longrightarrow> av = [] \<longrightarrow> length zs < d \<longrightarrow> False", OF _ assms])
  fix loop perms k av d zs r
  assume IH: "\<And>perms k av d zs r. loop perms k av d zs = Some r \<Longrightarrow>
              (\<forall>j. perms j = []) \<longrightarrow> av = [] \<longrightarrow> length zs < d \<longrightarrow> False"
    and step: "(if length zs < d then
        (case appendByPerm av d (perms k) zs of
           Inl f \<Rightarrow> Some (Inl f)
         | Inr zones' \<Rightarrow> loop perms (Suc k) av d zones')
      else Some (Inr zs)) = Some r"
  show "(\<forall>j. perms j = []) \<longrightarrow> av = [] \<longrightarrow> length zs < d \<longrightarrow> False"
  proof (intro impI)
    assume a: "\<forall>j. perms j = []" "av = []" "length zs < d"
    then have "loop perms (Suc k) av d zs = Some r" using step by simp
    from IH[OF this] a show False by blast
  qed
qed

subsection \<open>The denylist filter and the selection\<close>

lemma filterZones_loop_sound:
  "filterZones_loop av zs acc = Inr out \<Longrightarrow>
   \<exists>names. out = acc @ names \<and>
     (\<forall>n\<in>set names. \<exists>z\<in>set zs. ZoneName z = Some n \<and> (\<exists>zid. ZoneId z = Some zid \<and> zid \<notin> set av))"
proof (induction zs arbitrary: acc)
  case Nil
  then show ?case by simp
next
  case (Cons z zs)
  from Cons.prems obtain zid where zid: "ZoneId z = Some zid"
    by (cases "ZoneId z") auto
  show ?case
  proof (cases "zid \<in> set av")
    case True
    with Cons.prems zid have "filterZones_loop av zs acc = Inr out"
      by (simp add: strings_Contains_def)
    from Cons.IH[OF this] show ?thesis by auto
  next
    case False
    with Cons.prems zid obtain zname where zn: "ZoneName z = Some zname"
      by (cases "ZoneName z") (auto simp: strings_Contains_def)
    with Cons.prems zid False have "filterZones_loop av zs (acc @ [zname]) = Inr out"
      by (simp add: strings_Contains_def)
    from Cons.IH[OF this] obtain names where
      n: "out = (acc @ [zname]) @ names"
         "\<forall>n\<in>set names. \<exists>z\<in>set zs. ZoneName z = Some n \<and> (\<exists>zid. ZoneId z = Some zid \<and> zid \<notin> set av)"
      by blast
    have "out = acc @ (zname # names)" using n(1) by simp
    moreover have "\<forall>n\<in>set (zname # names). \<exists>z'\<in>set (z # zs). ZoneName z' = Some n \<and> (\<exists>zid. ZoneId z' = Some zid \<and> zid \<notin> set av)"
      using n(2) zn zid False by auto
    ultimately show ?thesis by blast
  qed
qed

lemma filterZones_loop_wellFormed:
  "\<forall>z\<in>set zs. wellFormedZone z \<Longrightarrow>
   filterZones_loop av zs acc =
     Inr (acc @ map (\<lambda>z. the (ZoneName z)) (filter (\<lambda>z. the (ZoneId z) \<notin> set av) zs))"
  by (induction zs arbitrary: acc) (auto simp: wellFormedZone_def strings_Contains_def)

lemma filterZones_sound:
  assumes "filterZones region zs = Inr out" and "name \<in> set out"
  shows "\<exists>z\<in>set zs. ZoneName z = Some name \<and> \<not> denylisted region z"
proof -
  from filterZones_loop_sound[OF assms(1)[unfolded filterZones_def]] assms(2)
  obtain z zid where "z \<in> set zs" "ZoneName z = Some name" "ZoneId z = Some zid"
    "zid \<notin> set (zoneIDsToAvoid region)" by auto
  then show ?thesis by (auto simp: denylisted_def)
qed

lemma filterZones_wellFormed:
  assumes "\<forall>z\<in>set zs. wellFormedZone z"
  shows "filterZones region zs = Inr (map (\<lambda>z. the (ZoneName z)) (filter (\<lambda>z. \<not> denylisted region z) zs))"
proof -
  have "filter (\<lambda>z. the (ZoneId z) \<notin> set (zoneIDsToAvoid region)) zs = filter (\<lambda>z. \<not> denylisted region z) zs"
    using assms by (intro filter_cong) (auto simp: wellFormedZone_def denylisted_def)
  then show ?thesis
    using filterZones_loop_wellFormed[OF assms, of "zoneIDsToAvoid region" "[]"]
    by (simp add: filterZones_def)
qed

lemma selectionLoop_subset:
  assumes "selectionLoop perms k av d zs = Some (Inr out)"
  shows "set out \<subseteq> set zs \<union> set av"
proof -
  have "\<forall>out'. r = Inr out' \<longrightarrow> set out' \<subseteq> set zs \<union> set av" if "selectionLoop perms k av d zs = Some r" for r
  proof (rule selectionLoop.raw_induct[where P = "\<lambda>perms k av d zs r. \<forall>out'. r = Inr out' \<longrightarrow> set out' \<subseteq> set zs \<union> set av", OF _ that])
    fix loop perms k av d zs r
    assume IH: "\<And>perms k av d zs r. loop perms k av d zs = Some r \<Longrightarrow>
              \<forall>out'. r = Inr out' \<longrightarrow> set out' \<subseteq> set zs \<union> set av"
      and step: "(if length zs < d then
        (case appendByPerm av d (perms k) zs of
           Inl f \<Rightarrow> Some (Inl f)
         | Inr zones' \<Rightarrow> loop perms (Suc k) av d zones')
      else Some (Inr zs)) = Some r"
    show "\<forall>out'. r = Inr out' \<longrightarrow> set out' \<subseteq> set zs \<union> set av"
    proof (cases "length zs < d")
      case False
      then show ?thesis using step by auto
    next
      case True
      show ?thesis
      proof (cases "appendByPerm av d (perms k) zs")
        case (Inl f)
        then show ?thesis using step True by auto
      next
        case (Inr zones')
        then have "loop perms (Suc k) av d zones' = Some r" using step True by simp
        from IH[OF this] appendByPerm_subset[OF Inr] show ?thesis by blast
      qed
    qed
  qed
  from this[OF assms] show ?thesis by simp
qed

lemma selectionLoop_enough:
  assumes "isPerm (length av) (perms 0)" and "d \<le> length av"
  shows "selectionLoop perms 0 av d [] = Some (Inr (map ((!) av) (take d (perms 0))))"
proof (cases "0 < d")
  case False
  then show ?thesis using selectionLoop_done[of "[]" d perms 0 av] by simp
next
  case True
  have bound: "\<forall>i\<in>set (perms 0). i < length av" using isPerm_bound[OF assms(1)] .
  have len: "length (perms 0) = length av" using isPerm_length[OF assms(1)] .
  have ap: "appendByPerm av d (perms 0) [] = Inr (map ((!) av) (take d (perms 0)))"
    using appendByPerm_exact[OF bound, of "[]" d] True by simp
  have "\<not> length (map ((!) av) (take d (perms 0))) < d" using len assms(2) by simp
  from selectionLoop_done[OF this]
  show ?thesis using selectionLoop_step[where perms=perms and k=0, OF _ ap] True by simp
qed

lemma isPerm_mset: "isPerm n p \<Longrightarrow> mset p = mset [0..<n]"
  unfolding isPerm_def by (metis distinct_upt set_eq_iff_mset_eq_distinct set_upt)

lemma map_nth_perm:
  assumes "isPerm (length av) p"
  shows "mset (map ((!) av) p) = mset av"
proof -
  have "mset (map ((!) av) p) = image_mset ((!) av) (mset p)" by simp
  also have "\<dots> = image_mset ((!) av) (mset [0..<length av])" using isPerm_mset[OF assms] by simp
  also have "\<dots> = mset (map ((!) av) [0..<length av])" by simp
  also have "\<dots> = mset av" by (simp add: map_nth)
  finally show ?thesis .
qed

lemma distinct_selection:
  assumes "isPerm (length av) p" and "distinct av"
  shows "distinct (map ((!) av) (take d p))"
proof -
  have dp: "distinct (take d p)" using assms(1) by (simp add: isPerm_def)
  have "set (take d p) \<subseteq> {0..<length av}" using assms(1) set_take_subset[of d p] by (auto simp: isPerm_def)
  then have "inj_on ((!) av) (set (take d p))"
    using assms(2) unfolding inj_on_def
    by (metis atLeastLessThan_iff nth_eq_iff_index_eq subsetD)
  with dp show ?thesis by (simp add: distinct_map)
qed

subsection \<open>Local zones\<close>

text \<open>
  C8: when the requested local-zone list is empty, \<^verbatim>\<open>SetLocalZones\<close> succeeds at
  once: no query goes to the Zone Source, nothing is logged, and the
  configuration, every field of it, is as it was.
\<close>

theorem SetLocalZones_empty_noop:
  assumes "LocalZones spec = []"
  shows "SetLocalZones spec ec2Api region = (spec, None, [])"
  using assms by (simp add: SetLocalZones_def)

theorem SetLocalZones_empty_noop_witness:
  "LocalZones (testConfig [] ''vpc-1'') = [] \<and>
   SetLocalZones (testConfig [] ''vpc-1'') (stubEC2 (Inr cnNorthZones)) RegionCNNorth1
     = (testConfig [] ''vpc-1'', None, [])"
proof -
  have h: "LocalZones (testConfig [] ''vpc-1'') = []" by (simp add: testConfig_def)
  show ?thesis using h SetLocalZones_empty_noop[OF h] by simp
qed

text \<open>
  C7: for a non-empty requested local-zone list, when the query to the Zone
  Source fails, \<^verbatim>\<open>SetLocalZones\<close> leaves the configuration as it was and returns an
  error whose text names the requested zones and ends with the cause's text,
  and which wraps the cause.
\<close>

theorem SetLocalZones_query_fails:
  assumes "LocalZones spec \<noteq> []"
    and "ec2Api (localZonesInput (LocalZones spec) region) = Inl cause"
  shows "fst (SetLocalZones spec ec2Api region) = spec \<and>
         fst (snd (SetLocalZones spec ec2Api region)) =
           Some (Err (GoError (''error validating local zone(s) '' @ fmt_strings (LocalZones spec)
                               @ '': '' @ message cause) (Some cause))) \<and>
         unwrap (GoError (''error validating local zone(s) '' @ fmt_strings (LocalZones spec)
                               @ '': '' @ message cause) (Some cause)) = Some cause"
  using assms by (simp add: SetLocalZones_def Errorf_w_def Let_def)

theorem SetLocalZones_query_fails_witness:
  "LocalZones (testConfig [''us-west-2-lax-1'', ''us-west-2-lax-2''] '''') \<noteq> [] \<and>
   stubEC2 (Inl (GoError ''err'' None))
     (localZonesInput (LocalZones (testConfig [''us-west-2-lax-1'', ''us-west-2-lax-2''] '''')) ''us-west-2'')
     = Inl (GoError ''err'' None) \<and>
   fst (SetLocalZones (testConfig [''us-west-2-lax-1'', ''us-west-2-lax-2''] '''')
          (stubEC2 (Inl (GoError ''err'' None))) ''us-west-2'')
     = testConfig [''us-west-2-lax-1'', ''us-west-2-lax-2''] '''' \<and>
   fst (snd (SetLocalZones (testConfig [''us-west-2-lax-1'', ''us-west-2-lax-2''] '''')
          (stubEC2 (Inl (GoError ''err'' None))) ''us-west-2''))
     = Some (Err (GoError ''error validating local zone(s) [us-west-2-lax-1 us-west-2-lax-2]: err''
                    (Some (GoError ''err'' None))))"
proof -
  let ?spec = "testConfig [''us-west-2-lax-1'', ''us-west-2-lax-2''] ''''"
  let ?api = "stubEC2 (Inl (GoError ''err'' None))"
  have h1: "LocalZones ?spec \<noteq> []" by (simp add: testConfig_def)
  have h2: "?api (localZonesInput (LocalZones ?spec) ''us-west-2'') = Inl (GoError ''err'' None)"
    by (simp add: stubEC2_def)
  have fmt: "fmt_strings (LocalZones ?spec) = ''[us-west-2-lax-1 us-west-2-lax-2]''"
    by (simp add: testConfig_def fmt_strings_def)
  show ?thesis
    using h1 h2 SetLocalZones_query_fails[where ec2Api="?api" and spec="?spec", OF h1 h2] fmt by simp
qed

text \<open>
  C6: for a non-empty requested local-zone list, when the query to the Zone
  Source succeeds with zones that each carry an identifier and a name,
  \<^verbatim>\<open>SetLocalZones\<close> returns success and the zone-list field holds exactly the names
  of the returned zones that are not denylisted, in the order returned. A
  requested zone that is denylisted or that the source did not return is
  therefore not in the field, and no error reports it.
\<close>

theorem SetLocalZones_overwrites:
  assumes "LocalZones spec \<noteq> []"
    and "ec2Api (localZonesInput (LocalZones spec) region) = Inr output"
    and "\<forall>z\<in>set output. wellFormedZone z"
  shows "fst (SetLocalZones spec ec2Api region) =
           spec\<lparr>LocalZones := map (\<lambda>z. the (ZoneName z)) (filter (\<lambda>z. \<not> denylisted region z) output)\<rparr> \<and>
         fst (snd (SetLocalZones spec ec2Api region)) = None \<and>
         (\<forall>name\<in>set (LocalZones spec).
            \<not> (\<exists>z\<in>set output. ZoneName z = Some name \<and> \<not> denylisted region z) \<longrightarrow>
            name \<notin> set (LocalZones (fst (SetLocalZones spec ec2Api region))))"
proof -
  have f: "filterZones region output =
      Inr (map (\<lambda>z. the (ZoneName z)) (filter (\<lambda>z. \<not> denylisted region z) output))"
    using filterZones_wellFormed[OF assms(3)] .
  have eq: "SetLocalZones spec ec2Api region =
      (spec\<lparr>LocalZones := map (\<lambda>z. the (ZoneName z)) (filter (\<lambda>z. \<not> denylisted region z) output)\<rparr>,
       None,
       (if ID (VPC spec) \<noteq> [] then [LogWarning localZonesWarning] else [])
         @ [Query (localZonesInput (LocalZones spec) region)])"
    using assms(1,2) f by (simp add: SetLocalZones_def Let_def)
  have drop: "\<forall>name\<in>set (LocalZones spec).
            \<not> (\<exists>z\<in>set output. ZoneName z = Some name \<and> \<not> denylisted region z) \<longrightarrow>
            name \<notin> set (map (\<lambda>z. the (ZoneName z)) (filter (\<lambda>z. \<not> denylisted region z) output))"
    using assms(3) by (auto simp: wellFormedZone_def)
  show ?thesis using eq drop by simp
qed

theorem SetLocalZones_overwrites_witness:
  "LocalZones (testConfig [''cnn1-az4'', ''zone1'', ''zone9''] '''') \<noteq> [] \<and>
   stubEC2 (Inr localZonesAnswer)
     (localZonesInput (LocalZones (testConfig [''cnn1-az4'', ''zone1'', ''zone9''] '''')) RegionCNNorth1)
     = Inr localZonesAnswer \<and>
   fst (SetLocalZones (testConfig [''cnn1-az4'', ''zone1'', ''zone9''] '''') (stubEC2 (Inr localZonesAnswer)) RegionCNNorth1)
     = testConfig [''zone1''] '''' \<and>
   fst (snd (SetLocalZones (testConfig [''cnn1-az4'', ''zone1'', ''zone9''] '''') (stubEC2 (Inr localZonesAnswer)) RegionCNNorth1))
     = None"
proof -
  let ?spec = "testConfig [''cnn1-az4'', ''zone1'', ''zone9''] ''''"
  let ?api = "stubEC2 (Inr localZonesAnswer)"
  have h1: "LocalZones ?spec \<noteq> []" by (simp add: testConfig_def)
  have h2: "?api (localZonesInput (LocalZones ?spec) RegionCNNorth1) = Inr localZonesAnswer"
    by (simp add: stubEC2_def)
  have h3: "\<forall>z\<in>set localZonesAnswer. wellFormedZone z"
    by (simp add: localZonesAnswer_def wellFormedZone_def createAvailabilityZone_def
        createAvailabilityZoneWithID_def)
  have names: "map (\<lambda>z. the (ZoneName z)) (filter (\<lambda>z. \<not> denylisted RegionCNNorth1 z) localZonesAnswer)
      = [''zone1'']"
    by (simp add: localZonesAnswer_def denylisted_def zoneIDsToAvoid_def createAvailabilityZone_def
        createAvailabilityZoneWithID_def)
  show ?thesis
    using h1 h2 SetLocalZones_overwrites[where ec2Api="?api" and spec="?spec", OF h1 h2 h3] names
    by (simp add: testConfig_def)
qed

text \<open>
  C10: for a non-empty requested local-zone list, an existing VPC ID changes
  nothing but the log: the error returned, the zone-list field and the queries
  sent are those of the same call without a VPC ID, and the events are the
  same but for the one warning in front.
\<close>

theorem SetLocalZones_vpc_id_only_warns:
  assumes "LocalZones spec \<noteq> []"
  shows "fst (snd (SetLocalZones (spec\<lparr>VPC := VPC spec\<lparr>ID := vpcId\<rparr>\<rparr>) ec2Api region))
           = fst (snd (SetLocalZones (spec\<lparr>VPC := VPC spec\<lparr>ID := []\<rparr>\<rparr>) ec2Api region)) \<and>
         LocalZones (fst (SetLocalZones (spec\<lparr>VPC := VPC spec\<lparr>ID := vpcId\<rparr>\<rparr>) ec2Api region))
           = LocalZones (fst (SetLocalZones (spec\<lparr>VPC := VPC spec\<lparr>ID := []\<rparr>\<rparr>) ec2Api region)) \<and>
         VPC (fst (SetLocalZones (spec\<lparr>VPC := VPC spec\<lparr>ID := vpcId\<rparr>\<rparr>) ec2Api region))
           = VPC spec\<lparr>ID := vpcId\<rparr> \<and>
         filter isQuery (snd (snd (SetLocalZones (spec\<lparr>VPC := VPC spec\<lparr>ID := vpcId\<rparr>\<rparr>) ec2Api region)))
           = filter isQuery (snd (snd (SetLocalZones (spec\<lparr>VPC := VPC spec\<lparr>ID := []\<rparr>\<rparr>) ec2Api region))) \<and>
         snd (snd (SetLocalZones (spec\<lparr>VPC := VPC spec\<lparr>ID := vpcId\<rparr>\<rparr>) ec2Api region))
           = (if vpcId \<noteq> [] then [LogWarning localZonesWarning] else [])
             @ snd (snd (SetLocalZones (spec\<lparr>VPC := VPC spec\<lparr>ID := []\<rparr>\<rparr>) ec2Api region))"
  using assms
  by (simp add: SetLocalZones_def Let_def isQuery_def split: sum.splits)

theorem SetLocalZones_vpc_id_only_warns_witness:
  "LocalZones (testConfig [''zone1''] []) \<noteq> [] \<and>
   fst (snd (SetLocalZones (testConfig [''zone1''] ''vpc-1'') (stubEC2 (Inr localZonesAnswer)) RegionCNNorth1))
     = fst (snd (SetLocalZones (testConfig [''zone1''] []) (stubEC2 (Inr localZonesAnswer)) RegionCNNorth1)) \<and>
   LocalZones (fst (SetLocalZones (testConfig [''zone1''] ''vpc-1'') (stubEC2 (Inr localZonesAnswer)) RegionCNNorth1))
     = LocalZones (fst (SetLocalZones (testConfig [''zone1''] []) (stubEC2 (Inr localZonesAnswer)) RegionCNNorth1)) \<and>
   snd (snd (SetLocalZones (testConfig [''zone1''] ''vpc-1'') (stubEC2 (Inr localZonesAnswer)) RegionCNNorth1))
     = LogWarning localZonesWarning
       # snd (snd (SetLocalZones (testConfig [''zone1''] []) (stubEC2 (Inr localZonesAnswer)) RegionCNNorth1))"
proof -
  let ?spec = "testConfig [''zone1''] []"
  have h: "LocalZones ?spec \<noteq> []" by (simp add: testConfig_def)
  have v1: "?spec\<lparr>VPC := VPC ?spec\<lparr>ID := ''vpc-1''\<rparr>\<rparr> = testConfig [''zone1''] ''vpc-1''"
    by (simp add: testConfig_def)
  have v0: "?spec\<lparr>VPC := VPC ?spec\<lparr>ID := []\<rparr>\<rparr> = ?spec"
    by (simp add: testConfig_def)
  show ?thesis
    using h SetLocalZones_vpc_id_only_warns[where spec="?spec" and vpcId="''vpc-1''"
        and ec2Api="stubEC2 (Inr localZonesAnswer)" and region=RegionCNNorth1, OF h]
    unfolding v1 v0 by simp
qed

lemma getAvailabilityZones_sound:
  assumes "getAvailabilityZones ec2API region = Inr zones"
  shows "\<exists>output. ec2API (availabilityZonesInput region) = Inr output \<and> filterZones region output = Inr zones"
  using assms by (auto simp: getAvailabilityZones_def Let_def split: sum.splits)

lemma GetAvailabilityZones_subset:
  assumes "GetAvailabilityZones ec2API perms region = Some (Inr out)"
  shows "\<exists>zones. getAvailabilityZones ec2API region = Inr zones \<and> set out \<subseteq> set zones"
proof (cases "getAvailabilityZones ec2API region")
  case (Inl f)
  then show ?thesis using assms by (simp add: GetAvailabilityZones_def)
next
  case (Inr zones)
  show ?thesis
  proof (cases "length zones < RecommendedAvailabilityZones")
    case True
    then show ?thesis using assms Inr
      by (auto simp: GetAvailabilityZones_def Let_def split: if_splits)
  next
    case False
    then have "selectionLoop perms 0 zones (desiredNumberOfAZs region) [] = Some (Inr out)"
      using assms Inr
      by (auto simp: GetAvailabilityZones_def Let_def randomSelectionOfZones_def
          MinRequiredAvailabilityZones_def RecommendedAvailabilityZones_def split: if_splits)
    from selectionLoop_subset[OF this] Inr show ?thesis by simp
  qed
qed

text \<open>
  C2: every name in the output of \<^verbatim>\<open>GetAvailabilityZones\<close>, and every name in the
  zone-list field that \<^verbatim>\<open>SetLocalZones\<close> writes, is the name of a zone that the Zone
  Source returned and whose identifier the region's denylist does not list.
  What was requested by name plays no part.
\<close>

theorem denylisted_zone_never_exposed:
  "(GetAvailabilityZones ec2API perms region = Some (Inr out) \<longrightarrow>
      (\<exists>output. ec2API (availabilityZonesInput region) = Inr output \<and>
         (\<forall>name\<in>set out. \<exists>z\<in>set output. ZoneName z = Some name \<and> \<not> denylisted region z)))
   \<and>
   (LocalZones spec \<noteq> [] \<longrightarrow>
    ec2Api (localZonesInput (LocalZones spec) region') = Inr output' \<longrightarrow>
    fst (snd (SetLocalZones spec ec2Api region')) = None \<longrightarrow>
      (\<forall>name\<in>set (LocalZones (fst (SetLocalZones spec ec2Api region'))).
         \<exists>z\<in>set output'. ZoneName z = Some name \<and> \<not> denylisted region' z))"
proof (intro conjI impI)
  assume g: "GetAvailabilityZones ec2API perms region = Some (Inr out)"
  from GetAvailabilityZones_subset[OF g] obtain zones where
    z: "getAvailabilityZones ec2API region = Inr zones" "set out \<subseteq> set zones" by blast
  from getAvailabilityZones_sound[OF z(1)] obtain resp where
    o: "ec2API (availabilityZonesInput region) = Inr resp" "filterZones region resp = Inr zones"
    by blast
  have "\<forall>name\<in>set out. \<exists>z\<in>set resp. ZoneName z = Some name \<and> \<not> denylisted region z"
    using filterZones_sound[OF o(2)] z(2) by blast
  with o(1) show "\<exists>output. ec2API (availabilityZonesInput region) = Inr output \<and>
         (\<forall>name\<in>set out. \<exists>z\<in>set output. ZoneName z = Some name \<and> \<not> denylisted region z)"
    by blast
next
  assume ne: "LocalZones spec \<noteq> []"
    and q: "ec2Api (localZonesInput (LocalZones spec) region') = Inr output'"
    and ok: "fst (snd (SetLocalZones spec ec2Api region')) = None"
  from ne q ok obtain zs where
    f: "filterZones region' output' = Inr zs"
    by (cases "filterZones region' output'") (auto simp: SetLocalZones_def Let_def)
  have "LocalZones (fst (SetLocalZones spec ec2Api region')) = zs"
    using ne q f by (simp add: SetLocalZones_def Let_def)
  then show "\<forall>name\<in>set (LocalZones (fst (SetLocalZones spec ec2Api region'))).
         \<exists>z\<in>set output'. ZoneName z = Some name \<and> \<not> denylisted region' z"
    using filterZones_sound[OF f] by blast
qed

theorem denylisted_zone_never_exposed_witness:
  "GetAvailabilityZones (stubEC2 (Inr cnNorthZones)) (fixedPerms [0, 1]) RegionCNNorth1
     = Some (Inr [''zone1'', ''zone2'']) \<and>
   (\<exists>z\<in>set cnNorthZones. ZoneName z = Some ''zone1'' \<and> \<not> denylisted RegionCNNorth1 z) \<and>
   (\<exists>z\<in>set cnNorthZones. ZoneName z = Some ''zone2'' \<and> \<not> denylisted RegionCNNorth1 z) \<and>
   LocalZones (testConfig [''cnn1-az4'', ''zone1''] []) \<noteq> [] \<and>
   fst (snd (SetLocalZones (testConfig [''cnn1-az4'', ''zone1''] []) (stubEC2 (Inr localZonesAnswer)) RegionCNNorth1)) = None \<and>
   LocalZones (fst (SetLocalZones (testConfig [''cnn1-az4'', ''zone1''] []) (stubEC2 (Inr localZonesAnswer)) RegionCNNorth1))
     = [''zone1''] \<and>
   (\<exists>z\<in>set localZonesAnswer. ZoneName z = Some ''zone1'' \<and> \<not> denylisted RegionCNNorth1 z)"
proof -
  let ?api = "stubEC2 (Inr cnNorthZones)"
  let ?spec = "testConfig [''cnn1-az4'', ''zone1''] []"
  let ?api' = "stubEC2 (Inr localZonesAnswer)"
  have g: "GetAvailabilityZones ?api (fixedPerms [0, 1]) RegionCNNorth1 = Some (Inr [''zone1'', ''zone2''])"
    by (simp add: GetAvailabilityZones_def getAvailabilityZones_def stubEC2_def filterZones_def
        cnNorthZones_def createAvailabilityZone_def createAvailabilityZoneWithID_def
        zoneIDsToAvoid_def strings_Contains_def MinRequiredAvailabilityZones_def
        RecommendedAvailabilityZones_def Let_def)
  have a: "?api (availabilityZonesInput RegionCNNorth1) = Inr cnNorthZones" by (simp add: stubEC2_def)
  have ne: "LocalZones ?spec \<noteq> []" by (simp add: testConfig_def)
  have q: "?api' (localZonesInput (LocalZones ?spec) RegionCNNorth1) = Inr localZonesAnswer"
    by (simp add: stubEC2_def)
  have s: "SetLocalZones ?spec ?api' RegionCNNorth1
      = (testConfig [''zone1''] [], None, [Query (localZonesInput [''cnn1-az4'', ''zone1''] RegionCNNorth1)])"
    by (simp add: SetLocalZones_def testConfig_def stubEC2_def filterZones_def localZonesAnswer_def
        createAvailabilityZone_def createAvailabilityZoneWithID_def zoneIDsToAvoid_def
        strings_Contains_def Let_def)
  have ok: "fst (snd (SetLocalZones ?spec ?api' RegionCNNorth1)) = None" using s by simp
  have lz: "LocalZones (fst (SetLocalZones ?spec ?api' RegionCNNorth1)) = [''zone1'']"
    using s by (simp add: testConfig_def)
  note inst = denylisted_zone_never_exposed[where ec2API="?api" and perms="fixedPerms [0, 1]"
      and region=RegionCNNorth1 and out="[''zone1'', ''zone2'']" and spec="?spec" and ec2Api="?api'"
      and region'=RegionCNNorth1 and output'=localZonesAnswer]
  from inst[THEN conjunct1, rule_format, OF g] a
  have c1: "\<forall>name\<in>set [''zone1'', ''zone2'']. \<exists>z\<in>set cnNorthZones. ZoneName z = Some name \<and> \<not> denylisted RegionCNNorth1 z"
    by auto
  from inst[THEN conjunct2, rule_format, OF ne q ok]
  have c2: "\<forall>name\<in>set [''zone1'']. \<exists>z\<in>set localZonesAnswer. ZoneName z = Some name \<and> \<not> denylisted RegionCNNorth1 z"
    unfolding lz by blast
  show ?thesis using g ne ok lz c1 c2 by simp
qed

subsection \<open>Thresholds and selection\<close>

lemma GetAvailabilityZones_after_filter:
  assumes "ec2API (availabilityZonesInput region) = Inr resp"
    and "filterZones region resp = Inr zones"
  shows "GetAvailabilityZones ec2API perms region =
     (if length zones < 2 then
        Some (Inl (Err (GoError (''only '' @ fmt_d (length zones) @ '' zones discovered ''
                                 @ fmt_strings zones @ '', at least 2 are required'') None)))
      else if length zones < 3 then Some (Inr zones)
      else selectionLoop perms 0 zones (desiredNumberOfAZs region) [])"
  using assms
  by (simp add: GetAvailabilityZones_def getAvailabilityZones_def Let_def Errorf_def
      MinRequiredAvailabilityZones_def RecommendedAvailabilityZones_def randomSelectionOfZones_def)

text \<open>
  C5: when fewer than 2 zones are left after the denylist filter,
  \<^verbatim>\<open>GetAvailabilityZones\<close> returns no zones but an error whose text gives the
  number of zones left, their names and the required minimum 2; with one zone
  left the text is "only 1 zones discovered [name], at least 2 are required".
\<close>

theorem GetAvailabilityZones_too_few:
  assumes "ec2API (availabilityZonesInput region) = Inr resp"
    and "filterZones region resp = Inr zones"
    and "length zones < 2"
  shows "GetAvailabilityZones ec2API perms region =
           Some (Inl (Err (GoError (''only '' @ fmt_d (length zones) @ '' zones discovered ''
                                    @ fmt_strings zones @ '', at least '' @ fmt_d 2 @ '' are required'') None))) \<and>
         (\<forall>z. zones = [z] \<longrightarrow>
            GetAvailabilityZones ec2API perms region =
              Some (Inl (Err (GoError (''only 1 zones discovered ['' @ z @ ''], at least 2 are required'') None)))) \<and>
         (zones = [] \<longrightarrow>
            GetAvailabilityZones ec2API perms region =
              Some (Inl (Err (GoError ''only 0 zones discovered [], at least 2 are required'' None))))"
  using GetAvailabilityZones_after_filter[where ec2API=ec2API, OF assms(1,2)] assms(3)
  by (auto simp: fmt_strings_def)

theorem GetAvailabilityZones_too_few_witness:
  "stubEC2 (Inr (zonesOf ''us-west-1'' [''zone1''])) (availabilityZonesInput ''us-west-1'')
     = Inr (zonesOf ''us-west-1'' [''zone1'']) \<and>
   filterZones ''us-west-1'' (zonesOf ''us-west-1'' [''zone1'']) = Inr [''zone1''] \<and>
   GetAvailabilityZones (stubEC2 (Inr (zonesOf ''us-west-1'' [''zone1'']))) (fixedPerms [0]) ''us-west-1''
     = Some (Inl (Err (GoError ''only 1 zones discovered [zone1], at least 2 are required'' None)))"
proof -
  let ?api = "stubEC2 (Inr (zonesOf ''us-west-1'' [''zone1'']))"
  have h1: "?api (availabilityZonesInput ''us-west-1'') = Inr (zonesOf ''us-west-1'' [''zone1''])"
    by (simp add: stubEC2_def)
  have h2: "filterZones ''us-west-1'' (zonesOf ''us-west-1'' [''zone1'']) = Inr [''zone1'']"
    by (simp add: filterZones_def zonesOf_def createAvailabilityZone_def
        createAvailabilityZoneWithID_def zoneIDsToAvoid_def RegionCNNorth1_def strings_Contains_def)
  have h3: "length [''zone1''] < 2" by simp
  show ?thesis
    using h1 h2 GetAvailabilityZones_too_few[where ec2API="?api" and perms="fixedPerms [0]", OF h1 h2 h3]
    by (simp add: fmt_strings_def)
qed

lemma mset_selection_subset:
  assumes "isPerm (length av) p"
  shows "mset (map ((!) av) (take d p)) \<subseteq># mset av"
proof -
  have "mset (map ((!) av) p) = mset (map ((!) av) (take d p)) + mset (map ((!) av) (drop d p))"
    by (metis append_take_drop_id map_append mset_append)
  then show ?thesis using map_nth_perm[OF assms] by (metis mset_subset_eq_add_left)
qed

lemma desiredNumberOfAZs_cases:
  "desiredNumberOfAZs region = (if region = RegionUSEast1 then 2 else 3)"
  by (simp add: desiredNumberOfAZs_def MinRequiredAvailabilityZones_def RecommendedAvailabilityZones_def)

lemma permSource_fixed: "isPerm n p \<Longrightarrow> permSource n (fixedPerms p)"
  by (simp add: permSource_def fixedPerms_def)

lemma filterZones_zonesOf:
  "filterZones region (zonesOf region' [''zone1'', ''zone2'', ''zone3'', ''zone4''])
     = Inr [''zone1'', ''zone2'', ''zone3'', ''zone4'']"
  "filterZones region (zonesOf region' [''zone1'', ''zone2'', ''zone3''])
     = Inr [''zone1'', ''zone2'', ''zone3'']"
  "filterZones region (zonesOf region' [''zone1'', ''zone2''])
     = Inr [''zone1'', ''zone2'']"
  by (simp_all add: filterZones_def zonesOf_def createAvailabilityZone_def
      createAvailabilityZoneWithID_def zoneIDsToAvoid_def strings_Contains_def)

text \<open>
  C3: when at least 3 zones are left after the denylist filter, and
  \<^verbatim>\<open>rand.Perm\<close> returns permutations, \<^verbatim>\<open>GetAvailabilityZones\<close> returns the zones
  at pairwise distinct positions of the filtered list (a draw without
  replacement): 2 of them in us-east-1 and 3 in every other region. The names
  returned are pairwise distinct whenever the filtered names are.
\<close>

theorem GetAvailabilityZones_random_selection:
  assumes "ec2API (availabilityZonesInput region) = Inr resp"
    and "filterZones region resp = Inr zones"
    and "3 \<le> length zones"
    and "permSource (length zones) perms"
  shows "\<exists>sel. GetAvailabilityZones ec2API perms region = Some (Inr (map ((!) zones) sel)) \<and>
           distinct sel \<and> set sel \<subseteq> {0..<length zones} \<and>
           length sel = (if region = RegionUSEast1 then 2 else 3) \<and>
           (distinct zones \<longrightarrow> distinct (map ((!) zones) sel))"
proof -
  let ?d = "desiredNumberOfAZs region"
  let ?sel = "take ?d (perms 0)"
  have p0: "isPerm (length zones) (perms 0)" using assms(4) by (simp add: permSource_def)
  have d: "?d = (if region = RegionUSEast1 then 2 else 3)" by (rule desiredNumberOfAZs_cases)
  have dle: "?d \<le> length zones" using assms(3) d by simp
  have "GetAvailabilityZones ec2API perms region = selectionLoop perms 0 zones ?d []"
    using GetAvailabilityZones_after_filter[where ec2API=ec2API, OF assms(1,2)] assms(3) by simp
  then have g: "GetAvailabilityZones ec2API perms region = Some (Inr (map ((!) zones) ?sel))"
    using selectionLoop_enough[where perms=perms, OF p0 dle] by simp
  have "distinct ?sel" using p0 by (simp add: isPerm_def)
  moreover have "set ?sel \<subseteq> {0..<length zones}"
    using p0 set_take_subset[of ?d "perms 0"] by (auto simp: isPerm_def)
  moreover have "length ?sel = (if region = RegionUSEast1 then 2 else 3)"
    using isPerm_length[OF p0] dle d by simp
  moreover have "distinct zones \<longrightarrow> distinct (map ((!) zones) ?sel)"
    using distinct_selection[OF p0] by blast
  ultimately show ?thesis using g by blast
qed

theorem GetAvailabilityZones_random_selection_witness:
  "stubEC2 (Inr (zonesOf ''us-west-1'' [''zone1'', ''zone2'', ''zone3'', ''zone4'']))
      (availabilityZonesInput ''us-west-1'')
     = Inr (zonesOf ''us-west-1'' [''zone1'', ''zone2'', ''zone3'', ''zone4'']) \<and>
   filterZones ''us-west-1'' (zonesOf ''us-west-1'' [''zone1'', ''zone2'', ''zone3'', ''zone4''])
     = Inr [''zone1'', ''zone2'', ''zone3'', ''zone4''] \<and>
   permSource 4 (fixedPerms [2, 0, 3, 1]) \<and>
   (\<exists>sel. GetAvailabilityZones (stubEC2 (Inr (zonesOf ''us-west-1'' [''zone1'', ''zone2'', ''zone3'', ''zone4''])))
             (fixedPerms [2, 0, 3, 1]) ''us-west-1''
           = Some (Inr (map ((!) [''zone1'', ''zone2'', ''zone3'', ''zone4'']) sel)) \<and>
          distinct sel \<and> set sel \<subseteq> {0..<4} \<and> length sel = 3 \<and>
          distinct (map ((!) [''zone1'', ''zone2'', ''zone3'', ''zone4'']) sel))"
proof -
  let ?zs = "[''zone1'', ''zone2'', ''zone3'', ''zone4'']"
  let ?api = "stubEC2 (Inr (zonesOf ''us-west-1'' ?zs))"
  have h1: "?api (availabilityZonesInput ''us-west-1'') = Inr (zonesOf ''us-west-1'' ?zs)"
    by (simp add: stubEC2_def)
  have h2: "filterZones ''us-west-1'' (zonesOf ''us-west-1'' ?zs) = Inr ?zs"
    by (rule filterZones_zonesOf)
  have h3: "3 \<le> length ?zs" by simp
  have "isPerm 4 [2, 0, 3, 1]" by (auto simp: isPerm_def)
  then have p: "permSource 4 (fixedPerms [2, 0, 3, 1])" by (rule permSource_fixed)
  have len: "length ?zs = 4" by simp
  have h4: "permSource (length ?zs) (fixedPerms [2, 0, 3, 1])" by (subst len) (rule p)
  have c: "\<exists>sel. GetAvailabilityZones ?api (fixedPerms [2, 0, 3, 1]) ''us-west-1''
           = Some (Inr (map ((!) ?zs) sel)) \<and>
          distinct sel \<and> set sel \<subseteq> {0..<4} \<and> length sel = 3 \<and> distinct (map ((!) ?zs) sel)"
    using GetAvailabilityZones_random_selection[where ec2API="?api", OF h1 h2 h3 h4, unfolded len]
    by (simp add: RegionUSEast1_def)
  show ?thesis using h1 h2 p c by simp
qed

text \<open>
  C4, as the code has it: with exactly 2 zones left after the denylist filter,
  \<^verbatim>\<open>GetAvailabilityZones\<close> returns those two as filtered, whatever the
  randomness. With exactly 3 left the zones go through the random selection,
  which reads the filtered list at the positions that the first call of
  \<^verbatim>\<open>rand.Perm\<close> returns: in every region but us-east-1 at all three positions, so
  that all three zones are returned, in the order drawn; in us-east-1 at the
  first two positions drawn, so that two of the three are returned.
\<close>

theorem GetAvailabilityZones_two_or_three:
  assumes "ec2API (availabilityZonesInput region) = Inr resp"
    and "filterZones region resp = Inr zones"
  shows "(length zones = 2 \<longrightarrow> GetAvailabilityZones ec2API perms region = Some (Inr zones)) \<and>
         (length zones = 3 \<and> permSource 3 perms \<and> region \<noteq> RegionUSEast1 \<longrightarrow>
            GetAvailabilityZones ec2API perms region = Some (Inr (map ((!) zones) (perms 0))) \<and>
            mset (map ((!) zones) (perms 0)) = mset zones) \<and>
         (length zones = 3 \<and> permSource 3 perms \<and> region = RegionUSEast1 \<longrightarrow>
            GetAvailabilityZones ec2API perms region
              = Some (Inr (map ((!) zones) (take 2 (perms 0)))) \<and>
            length (map ((!) zones) (take 2 (perms 0))) = 2 \<and>
            mset (map ((!) zones) (take 2 (perms 0))) \<subseteq># mset zones)"
proof (intro conjI impI)
  assume "length zones = 2"
  then show "GetAvailabilityZones ec2API perms region = Some (Inr zones)"
    using GetAvailabilityZones_after_filter[where ec2API=ec2API, OF assms] by simp
next
  assume a: "length zones = 3 \<and> permSource 3 perms \<and> region \<noteq> RegionUSEast1"
  then have p0: "isPerm (length zones) (perms 0)" by (simp add: permSource_def)
  have d: "desiredNumberOfAZs region = 3" using a by (simp add: desiredNumberOfAZs_cases)
  have "GetAvailabilityZones ec2API perms region = selectionLoop perms 0 zones 3 []"
    using GetAvailabilityZones_after_filter[where ec2API=ec2API, OF assms] a d by simp
  also have "\<dots> = Some (Inr (map ((!) zones) (take 3 (perms 0))))"
    using selectionLoop_enough[where perms=perms, OF p0, of 3] a by simp
  also have "take 3 (perms 0) = perms 0" using isPerm_length[OF p0] a by simp
  finally show "GetAvailabilityZones ec2API perms region = Some (Inr (map ((!) zones) (perms 0)))" .
next
  assume a: "length zones = 3 \<and> permSource 3 perms \<and> region \<noteq> RegionUSEast1"
  then have p0: "isPerm (length zones) (perms 0)" by (simp add: permSource_def)
  show "mset (map ((!) zones) (perms 0)) = mset zones" using map_nth_perm[OF p0] .
next
  assume a: "length zones = 3 \<and> permSource 3 perms \<and> region = RegionUSEast1"
  then have p0: "isPerm (length zones) (perms 0)" by (simp add: permSource_def)
  have d: "desiredNumberOfAZs region = 2" using a by (simp add: desiredNumberOfAZs_cases)
  have "GetAvailabilityZones ec2API perms region = selectionLoop perms 0 zones 2 []"
    using GetAvailabilityZones_after_filter[where ec2API=ec2API, OF assms] a d by simp
  also have "\<dots> = Some (Inr (map ((!) zones) (take 2 (perms 0))))"
    using selectionLoop_enough[where perms=perms, OF p0, of 2] a by simp
  finally show "GetAvailabilityZones ec2API perms region
      = Some (Inr (map ((!) zones) (take 2 (perms 0))))" .
next
  assume a: "length zones = 3 \<and> permSource 3 perms \<and> region = RegionUSEast1"
  then have p0: "isPerm (length zones) (perms 0)" by (simp add: permSource_def)
  show "length (map ((!) zones) (take 2 (perms 0))) = 2" using isPerm_length[OF p0] a by simp
next
  assume a: "length zones = 3 \<and> permSource 3 perms \<and> region = RegionUSEast1"
  then have p0: "isPerm (length zones) (perms 0)" by (simp add: permSource_def)
  show "mset (map ((!) zones) (take 2 (perms 0))) \<subseteq># mset zones"
    using mset_selection_subset[OF p0] .
qed

theorem GetAvailabilityZones_two_or_three_witness:
  "stubEC2 (Inr (zonesOf ''us-west-1'' [''zone1'', ''zone2''])) (availabilityZonesInput ''us-west-1'')
     = Inr (zonesOf ''us-west-1'' [''zone1'', ''zone2'']) \<and>
   filterZones ''us-west-1'' (zonesOf ''us-west-1'' [''zone1'', ''zone2'']) = Inr [''zone1'', ''zone2''] \<and>
   GetAvailabilityZones (stubEC2 (Inr (zonesOf ''us-west-1'' [''zone1'', ''zone2'']))) (fixedPerms [1, 0]) ''us-west-1''
     = Some (Inr [''zone1'', ''zone2'']) \<and>
   stubEC2 (Inr (zonesOf ''us-west-1'' [''zone1'', ''zone2'', ''zone3''])) (availabilityZonesInput ''us-west-1'')
     = Inr (zonesOf ''us-west-1'' [''zone1'', ''zone2'', ''zone3'']) \<and>
   filterZones ''us-west-1'' (zonesOf ''us-west-1'' [''zone1'', ''zone2'', ''zone3''])
     = Inr [''zone1'', ''zone2'', ''zone3''] \<and>
   permSource 3 (fixedPerms [2, 0, 1]) \<and>
   GetAvailabilityZones (stubEC2 (Inr (zonesOf ''us-west-1'' [''zone1'', ''zone2'', ''zone3''])))
       (fixedPerms [2, 0, 1]) ''us-west-1''
     = Some (Inr [''zone3'', ''zone1'', ''zone2'']) \<and>
   mset [''zone3'', ''zone1'', ''zone2''] = mset [''zone1'', ''zone2'', ''zone3''] \<and>
   stubEC2 (Inr (zonesOf RegionUSEast1 [''zone1'', ''zone2'', ''zone3''])) (availabilityZonesInput RegionUSEast1)
     = Inr (zonesOf RegionUSEast1 [''zone1'', ''zone2'', ''zone3'']) \<and>
   filterZones RegionUSEast1 (zonesOf RegionUSEast1 [''zone1'', ''zone2'', ''zone3''])
     = Inr [''zone1'', ''zone2'', ''zone3''] \<and>
   GetAvailabilityZones (stubEC2 (Inr (zonesOf RegionUSEast1 [''zone1'', ''zone2'', ''zone3''])))
       (fixedPerms [2, 0, 1]) RegionUSEast1
     = Some (Inr [''zone3'', ''zone1'']) \<and>
   mset [''zone3'', ''zone1''] \<subseteq># mset [''zone1'', ''zone2'', ''zone3'']"
proof -
  let ?z2 = "[''zone1'', ''zone2'']"
  let ?z3 = "[''zone1'', ''zone2'', ''zone3'']"
  let ?api2 = "stubEC2 (Inr (zonesOf ''us-west-1'' ?z2))"
  let ?api3 = "stubEC2 (Inr (zonesOf ''us-west-1'' ?z3))"
  let ?apiE = "stubEC2 (Inr (zonesOf RegionUSEast1 ?z3))"
  have a2: "?api2 (availabilityZonesInput ''us-west-1'') = Inr (zonesOf ''us-west-1'' ?z2)"
    by (simp add: stubEC2_def)
  have f2: "filterZones ''us-west-1'' (zonesOf ''us-west-1'' ?z2) = Inr ?z2"
    by (rule filterZones_zonesOf)
  have a3: "?api3 (availabilityZonesInput ''us-west-1'') = Inr (zonesOf ''us-west-1'' ?z3)"
    by (simp add: stubEC2_def)
  have f3: "filterZones ''us-west-1'' (zonesOf ''us-west-1'' ?z3) = Inr ?z3"
    by (rule filterZones_zonesOf)
  have aE: "?apiE (availabilityZonesInput RegionUSEast1) = Inr (zonesOf RegionUSEast1 ?z3)"
    by (simp add: stubEC2_def)
  have fE: "filterZones RegionUSEast1 (zonesOf RegionUSEast1 ?z3) = Inr ?z3"
    by (rule filterZones_zonesOf)
  have "isPerm 3 [2, 0, 1]" by (auto simp: isPerm_def)
  then have p: "permSource 3 (fixedPerms [2, 0, 1])" by (rule permSource_fixed)
  have c2: "GetAvailabilityZones ?api2 (fixedPerms [1, 0]) ''us-west-1'' = Some (Inr ?z2)"
    using GetAvailabilityZones_two_or_three[where ec2API="?api2" and perms="fixedPerms [1, 0]", OF a2 f2]
    by simp
  have c3: "GetAvailabilityZones ?api3 (fixedPerms [2, 0, 1]) ''us-west-1''
        = Some (Inr [''zone3'', ''zone1'', ''zone2'']) \<and>
      mset [''zone3'', ''zone1'', ''zone2''] = mset ?z3"
    using GetAvailabilityZones_two_or_three[where ec2API="?api3" and perms="fixedPerms [2, 0, 1]", OF a3 f3] p
    by (simp add: RegionUSEast1_def fixedPerms_def)
  have cE: "GetAvailabilityZones ?apiE (fixedPerms [2, 0, 1]) RegionUSEast1
        = Some (Inr [''zone3'', ''zone1'']) \<and>
      mset [''zone3'', ''zone1''] \<subseteq># mset ?z3"
    using GetAvailabilityZones_two_or_three[where ec2API="?apiE" and perms="fixedPerms [2, 0, 1]", OF aE fE] p
    by (simp add: fixedPerms_def)
  show ?thesis using a2 f2 c2 a3 f3 p c3 aE fE cE by simp
qed

text \<open>
  C4 as stated fails in us-east-1: three zones are left after the filter, and
  two are returned. It fails in the other regions too where it says that
  nothing is sampled: in us-west-1 the three zones come back in the order of
  the permutation drawn, not in the order filtered.
\<close>

theorem GetAvailabilityZones_three_in_us_east_1_counterexample:
  "stubEC2 (Inr (zonesOf RegionUSEast1 [''zone1'', ''zone2'', ''zone3''])) (availabilityZonesInput RegionUSEast1)
     = Inr (zonesOf RegionUSEast1 [''zone1'', ''zone2'', ''zone3'']) \<and>
   filterZones RegionUSEast1 (zonesOf RegionUSEast1 [''zone1'', ''zone2'', ''zone3''])
     = Inr [''zone1'', ''zone2'', ''zone3''] \<and>
   isPerm 3 [0, 1, 2] \<and>
   GetAvailabilityZones (stubEC2 (Inr (zonesOf RegionUSEast1 [''zone1'', ''zone2'', ''zone3''])))
       (fixedPerms [0, 1, 2]) RegionUSEast1
     = Some (Inr [''zone1'', ''zone2'']) \<and>
   GetAvailabilityZones (stubEC2 (Inr (zonesOf RegionUSEast1 [''zone1'', ''zone2'', ''zone3''])))
       (fixedPerms [0, 1, 2]) RegionUSEast1
     \<noteq> Some (Inr [''zone1'', ''zone2'', ''zone3'']) \<and>
   stubEC2 (Inr (zonesOf ''us-west-1'' [''zone1'', ''zone2'', ''zone3''])) (availabilityZonesInput ''us-west-1'')
     = Inr (zonesOf ''us-west-1'' [''zone1'', ''zone2'', ''zone3'']) \<and>
   filterZones ''us-west-1'' (zonesOf ''us-west-1'' [''zone1'', ''zone2'', ''zone3''])
     = Inr [''zone1'', ''zone2'', ''zone3''] \<and>
   isPerm 3 [2, 0, 1] \<and>
   GetAvailabilityZones (stubEC2 (Inr (zonesOf ''us-west-1'' [''zone1'', ''zone2'', ''zone3''])))
       (fixedPerms [2, 0, 1]) ''us-west-1''
     = Some (Inr [''zone3'', ''zone1'', ''zone2'']) \<and>
   GetAvailabilityZones (stubEC2 (Inr (zonesOf ''us-west-1'' [''zone1'', ''zone2'', ''zone3''])))
       (fixedPerms [2, 0, 1]) ''us-west-1''
     \<noteq> Some (Inr [''zone1'', ''zone2'', ''zone3''])"
proof -
  let ?z3 = "[''zone1'', ''zone2'', ''zone3'']"
  let ?apiE = "stubEC2 (Inr (zonesOf RegionUSEast1 ?z3))"
  let ?apiW = "stubEC2 (Inr (zonesOf ''us-west-1'' ?z3))"
  have len: "length ?z3 = 3" by simp
  have aE: "?apiE (availabilityZonesInput RegionUSEast1) = Inr (zonesOf RegionUSEast1 ?z3)"
    by (simp add: stubEC2_def)
  have fE: "filterZones RegionUSEast1 (zonesOf RegionUSEast1 ?z3) = Inr ?z3"
    by (rule filterZones_zonesOf)
  have p: "isPerm 3 [0, 1, 2]" by (auto simp: isPerm_def)
  have p0: "isPerm (length ?z3) (fixedPerms [0, 1, 2] 0)"
    unfolding len fixedPerms_def by (rule p)
  have "selectionLoop (fixedPerms [0, 1, 2]) 0 ?z3 2 [] = Some (Inr (map ((!) ?z3) (take 2 (fixedPerms [0, 1, 2] 0))))"
    using selectionLoop_enough[where perms="fixedPerms [0, 1, 2]", OF p0, of 2] by simp
  then have "selectionLoop (fixedPerms [0, 1, 2]) 0 ?z3 2 [] = Some (Inr [''zone1'', ''zone2''])"
    by (simp add: fixedPerms_def)
  then have g: "GetAvailabilityZones ?apiE (fixedPerms [0, 1, 2]) RegionUSEast1 = Some (Inr [''zone1'', ''zone2''])"
    using GetAvailabilityZones_after_filter[where ec2API="?apiE" and perms="fixedPerms [0, 1, 2]", OF aE fE]
    by (simp add: desiredNumberOfAZs_cases)
  have aW: "?apiW (availabilityZonesInput ''us-west-1'') = Inr (zonesOf ''us-west-1'' ?z3)"
    by (simp add: stubEC2_def)
  have fW: "filterZones ''us-west-1'' (zonesOf ''us-west-1'' ?z3) = Inr ?z3"
    by (rule filterZones_zonesOf)
  have q: "isPerm 3 [2, 0, 1]" by (auto simp: isPerm_def)
  have q0: "isPerm (length ?z3) (fixedPerms [2, 0, 1] 0)"
    unfolding len fixedPerms_def by (rule q)
  have "selectionLoop (fixedPerms [2, 0, 1]) 0 ?z3 3 [] = Some (Inr (map ((!) ?z3) (take 3 (fixedPerms [2, 0, 1] 0))))"
    using selectionLoop_enough[where perms="fixedPerms [2, 0, 1]", OF q0, of 3] by simp
  then have "selectionLoop (fixedPerms [2, 0, 1]) 0 ?z3 3 [] = Some (Inr [''zone3'', ''zone1'', ''zone2''])"
    by (simp add: fixedPerms_def)
  then have w: "GetAvailabilityZones ?apiW (fixedPerms [2, 0, 1]) ''us-west-1''
      = Some (Inr [''zone3'', ''zone1'', ''zone2''])"
    using GetAvailabilityZones_after_filter[where ec2API="?apiW" and perms="fixedPerms [2, 0, 1]", OF aW fW]
    by (simp add: desiredNumberOfAZs_cases RegionUSEast1_def)
  show ?thesis using aE fE p g aW fW q w by simp
qed

subsection \<open>Termination of the random selection\<close>

lemma selectionLoop_diverges:
  assumes "permSource 0 perms" and "length zs < d"
  shows "selectionLoop perms k [] d zs = None"
proof (cases "selectionLoop perms k [] d zs")
  case None
  then show ?thesis .
next
  case (Some r)
  have "\<forall>j. perms j = []" using assms(1) by (simp add: permSource_def isPerm_def)
  with selectionLoop_diverges_aux[OF Some] assms(2) show ?thesis by blast
qed

lemma not_distinct_longer:
  assumes "set out \<subseteq> set av" and "length av < length out"
  shows "\<not> distinct out"
proof
  assume "distinct out"
  then have "length out = card (set out)" by (simp add: distinct_card)
  also have "\<dots> \<le> card (set av)" using assms(1) by (simp add: card_mono)
  also have "\<dots> \<le> length av" by (rule card_length)
  finally show False using assms(2) by simp
qed

text \<open>
  C9: for a target count of at least 1 and a \<^verbatim>\<open>rand.Perm\<close> that returns
  permutations, the loop of \<^verbatim>\<open>randomSelectionOfZones\<close> returns exactly when the
  list of available zones is not empty. On a non-empty list shorter than the
  target it returns, and what it returns has a repeated name; on a list of
  distinct names at least as long as the target, the names returned are
  distinct. \<^verbatim>\<open>randomSelectionOfZones\<close> runs this loop with target 2 or 3, and
  \<^verbatim>\<open>GetAvailabilityZones\<close> calls it only with at least 3 zones, which is at least
  the target; with fewer, its result does not depend on the randomness.
\<close>

theorem randomSelectionOfZones_terminates_iff_nonempty:
  assumes "1 \<le> d" and "permSource (length availableZones) perms"
  shows "((\<exists>r. selectionLoop perms 0 availableZones d [] = Some r) \<longleftrightarrow> availableZones \<noteq> []) \<and>
         (availableZones \<noteq> [] \<and> length availableZones < d \<longrightarrow>
            (\<exists>out. selectionLoop perms 0 availableZones d [] = Some (Inr out) \<and>
                   length out = d \<and> \<not> distinct out)) \<and>
         (d \<le> length availableZones \<and> distinct availableZones \<longrightarrow>
            (\<exists>out. selectionLoop perms 0 availableZones d [] = Some (Inr out) \<and>
                   length out = d \<and> distinct out)) \<and>
         randomSelectionOfZones perms region availableZones
           = selectionLoop perms 0 availableZones (desiredNumberOfAZs region) [] \<and>
         1 \<le> desiredNumberOfAZs region \<and>
         (\<forall>ec2API resp.
            ec2API (availabilityZonesInput region) = Inr resp \<and>
            filterZones region resp = Inr availableZones \<longrightarrow>
              (3 \<le> length availableZones \<longrightarrow>
                 GetAvailabilityZones ec2API perms region
                   = randomSelectionOfZones perms region availableZones \<and>
                 desiredNumberOfAZs region \<le> length availableZones) \<and>
              (length availableZones < 3 \<longrightarrow>
                 (\<forall>perms'. GetAvailabilityZones ec2API perms' region
                    = GetAvailabilityZones ec2API perms region)))"
proof (intro conjI)
  show "(\<exists>r. selectionLoop perms 0 availableZones d [] = Some r) \<longleftrightarrow> availableZones \<noteq> []"
  proof (cases "availableZones = []")
    case True
    then have "selectionLoop perms 0 availableZones d [] = None"
      using selectionLoop_diverges[of perms "[]" d 0] assms by simp
    with True show ?thesis by simp
  next
    case False
    from selectionLoop_terminates[OF assms(2) False, of "[]" d 0] False show ?thesis by auto
  qed
next
  show "availableZones \<noteq> [] \<and> length availableZones < d \<longrightarrow>
            (\<exists>out. selectionLoop perms 0 availableZones d [] = Some (Inr out) \<and>
                   length out = d \<and> \<not> distinct out)"
  proof
    assume a: "availableZones \<noteq> [] \<and> length availableZones < d"
    from selectionLoop_terminates[OF assms(2), of "[]" d 0] a obtain out where
      o: "selectionLoop perms 0 availableZones d [] = Some (Inr out)" "length out = d"
         "set out \<subseteq> set availableZones" by auto
    have "\<not> distinct out" using not_distinct_longer[OF o(3)] o(2) a by simp
    with o show "\<exists>out. selectionLoop perms 0 availableZones d [] = Some (Inr out) \<and>
                   length out = d \<and> \<not> distinct out" by blast
  qed
next
  show "d \<le> length availableZones \<and> distinct availableZones \<longrightarrow>
            (\<exists>out. selectionLoop perms 0 availableZones d [] = Some (Inr out) \<and>
                   length out = d \<and> distinct out)"
  proof
    assume a: "d \<le> length availableZones \<and> distinct availableZones"
    have p0: "isPerm (length availableZones) (perms 0)" using assms(2) by (simp add: permSource_def)
    have "selectionLoop perms 0 availableZones d []
        = Some (Inr (map ((!) availableZones) (take d (perms 0))))"
      using selectionLoop_enough[where perms=perms, OF p0] a by simp
    moreover have "length (map ((!) availableZones) (take d (perms 0))) = d"
      using isPerm_length[OF p0] a by simp
    moreover have "distinct (map ((!) availableZones) (take d (perms 0)))"
      using distinct_selection[OF p0] a by simp
    ultimately show "\<exists>out. selectionLoop perms 0 availableZones d [] = Some (Inr out) \<and>
                   length out = d \<and> distinct out" by blast
  qed
next
  show "randomSelectionOfZones perms region availableZones
           = selectionLoop perms 0 availableZones (desiredNumberOfAZs region) []"
    by (simp add: randomSelectionOfZones_def)
next
  show "1 \<le> desiredNumberOfAZs region" by (simp add: desiredNumberOfAZs_cases)
next
  show "\<forall>ec2API resp.
            ec2API (availabilityZonesInput region) = Inr resp \<and>
            filterZones region resp = Inr availableZones \<longrightarrow>
              (3 \<le> length availableZones \<longrightarrow>
                 GetAvailabilityZones ec2API perms region
                   = randomSelectionOfZones perms region availableZones \<and>
                 desiredNumberOfAZs region \<le> length availableZones) \<and>
              (length availableZones < 3 \<longrightarrow>
                 (\<forall>perms'. GetAvailabilityZones ec2API perms' region
                    = GetAvailabilityZones ec2API perms region))"
  proof (intro allI impI)
    fix ec2API :: EC2API and resp
    assume a: "ec2API (availabilityZonesInput region) = Inr resp \<and>
            filterZones region resp = Inr availableZones"
    then have e: "\<And>ps. GetAvailabilityZones ec2API ps region =
     (if length availableZones < 2 then
        Some (Inl (Err (GoError (''only '' @ fmt_d (length availableZones) @ '' zones discovered ''
                                 @ fmt_strings availableZones @ '', at least 2 are required'') None)))
      else if length availableZones < 3 then Some (Inr availableZones)
      else selectionLoop ps 0 availableZones (desiredNumberOfAZs region) [])"
      using GetAvailabilityZones_after_filter[where ec2API=ec2API and region=region and resp=resp]
      by blast
    show "(3 \<le> length availableZones \<longrightarrow>
                 GetAvailabilityZones ec2API perms region
                   = randomSelectionOfZones perms region availableZones \<and>
                 desiredNumberOfAZs region \<le> length availableZones) \<and>
              (length availableZones < 3 \<longrightarrow>
                 (\<forall>perms'. GetAvailabilityZones ec2API perms' region
                    = GetAvailabilityZones ec2API perms region))"
      using e by (auto simp: randomSelectionOfZones_def desiredNumberOfAZs_cases)
  qed
qed

theorem randomSelectionOfZones_terminates_iff_nonempty_witness:
  "(1::nat) \<le> 3 \<and> permSource 2 (fixedPerms [1, 0]) \<and>
   (\<exists>r. selectionLoop (fixedPerms [1, 0]) 0 [''zone1'', ''zone2''] 3 [] = Some r) \<and>
   (\<exists>out. selectionLoop (fixedPerms [1, 0]) 0 [''zone1'', ''zone2''] 3 [] = Some (Inr out) \<and>
          length out = 3 \<and> \<not> distinct out) \<and>
   permSource 0 (fixedPerms []) \<and>
   selectionLoop (fixedPerms []) 0 [] 3 [] = None"
proof -
  let ?av = "[''zone1'', ''zone2'']"
  have h1: "(1::nat) \<le> 3" by simp
  have "isPerm 2 [1, 0]" by (auto simp: isPerm_def)
  then have p: "permSource 2 (fixedPerms [1, 0])" by (rule permSource_fixed)
  have len: "length ?av = 2" by simp
  have h2: "permSource (length ?av) (fixedPerms [1, 0])" by (subst len) (rule p)
  note inst = randomSelectionOfZones_terminates_iff_nonempty[OF h1 h2, of "''us-west-1''", unfolded len]
  have c1: "\<exists>r. selectionLoop (fixedPerms [1, 0]) 0 ?av 3 [] = Some r"
    using inst[THEN conjunct1] by simp
  have c2: "\<exists>out. selectionLoop (fixedPerms [1, 0]) 0 ?av 3 [] = Some (Inr out) \<and>
          length out = 3 \<and> \<not> distinct out"
    using inst[THEN conjunct2, THEN conjunct1] by simp
  have "isPerm 0 []" by (simp add: isPerm_def)
  then have p0: "permSource 0 (fixedPerms [])" by (rule permSource_fixed)
  have h0: "permSource (length ([]::string list)) (fixedPerms [])" using p0 by simp
  have c3: "selectionLoop (fixedPerms []) 0 [] 3 [] = None"
    using randomSelectionOfZones_terminates_iff_nonempty[OF h1 h0, of "''us-west-1''", THEN conjunct1]
    by simp
  show ?thesis using p c1 c2 p0 c3 by simp
qed

subsection \<open>Fallback of the Attribute Manager\<close>

lemma fallbackTriggering_iff: "fallbackTriggering e \<longleftrightarrow> (\<exists>text. unwrapped e = ValidationClass text)"
  unfolding fallbackTriggering_def by (cases "unwrapped e") simp_all

text \<open>
  C1: each of \<^verbatim>\<open>Get\<close>, \<^verbatim>\<open>Set\<close> and \<^verbatim>\<open>Unset\<close> contacts the remote control plane
  exactly when the Stack Service's call failed with an error that, with its
  wrapping layers taken off, is of the validation class; on any other error
  of the Stack Service the operation returns that very error and makes no
  remote call.
\<close>

theorem fallback_exactly_on_validation_error:
  "(snd (Get m g) \<noteq> [] \<longleftrightarrow> (\<exists>e. GetLabels (service m) g = Inl e \<and> fallbackTriggering e)) \<and>
   (snd (Set_labels m g tags) \<noteq> [] \<longleftrightarrow>
      (\<exists>e. UpdateLabels (service m) g tags [] = Some e \<and> fallbackTriggering e)) \<and>
   (snd (Unset m g keys) \<noteq> [] \<longleftrightarrow>
      (\<exists>e. UpdateLabels (service m) g Map.empty keys = Some e \<and> fallbackTriggering e)) \<and>
   (\<forall>e. GetLabels (service m) g = Inl e \<and> \<not> fallbackTriggering e \<longrightarrow> Get m g = (Inl e, [])) \<and>
   (\<forall>e. UpdateLabels (service m) g tags [] = Some e \<and> \<not> fallbackTriggering e \<longrightarrow>
        Set_labels m g tags = (Some e, [])) \<and>
   (\<forall>e. UpdateLabels (service m) g Map.empty keys = Some e \<and> \<not> fallbackTriggering e \<longrightarrow>
        Unset m g keys = (Some e, [])) \<and>
   (\<forall>e. fallbackTriggering e \<longleftrightarrow> (\<exists>text. unwrapped e = ValidationClass text)) \<and>
   (\<forall>text e. fallbackTriggering (Wrapped text e) = fallbackTriggering e)"
proof (intro conjI)
  show "snd (Get m g) \<noteq> [] \<longleftrightarrow> (\<exists>e. GetLabels (service m) g = Inl e \<and> fallbackTriggering e)"
    by (simp add: Get_def split: sum.splits)
  show "snd (Set_labels m g tags) \<noteq> [] \<longleftrightarrow>
      (\<exists>e. UpdateLabels (service m) g tags [] = Some e \<and> fallbackTriggering e)"
    by (simp add: Set_labels_def split: option.splits)
  show "snd (Unset m g keys) \<noteq> [] \<longleftrightarrow>
      (\<exists>e. UpdateLabels (service m) g Map.empty keys = Some e \<and> fallbackTriggering e)"
    by (simp add: Unset_def split: option.splits)
  show "\<forall>e. GetLabels (service m) g = Inl e \<and> \<not> fallbackTriggering e \<longrightarrow> Get m g = (Inl e, [])"
    by (simp add: Get_def)
  show "\<forall>e. UpdateLabels (service m) g tags [] = Some e \<and> \<not> fallbackTriggering e \<longrightarrow>
        Set_labels m g tags = (Some e, [])"
    by (simp add: Set_labels_def)
  show "\<forall>e. UpdateLabels (service m) g Map.empty keys = Some e \<and> \<not> fallbackTriggering e \<longrightarrow>
        Unset m g keys = (Some e, [])"
    by (simp add: Unset_def)
  show "\<forall>e. fallbackTriggering e \<longleftrightarrow> (\<exists>text. unwrapped e = ValidationClass text)"
    using fallbackTriggering_iff by blast
  show "\<forall>text e. fallbackTriggering (Wrapped text e) = fallbackTriggering e"
    by (simp add: fallbackTriggering_def)
qed

theorem fallback_exactly_on_validation_error_witness:
  "GetLabels (service brokenService) ''bar'' = Inl somethingTerrible \<and>
   \<not> fallbackTriggering somethingTerrible \<and>
   Get brokenService ''bar'' = (Inl somethingTerrible, []) \<and>
   Set_labels brokenService ''bar'' [''k1'' \<mapsto> ''v1''] = (Some somethingTerrible, []) \<and>
   Unset brokenService ''bar'' [''k1''] = (Some somethingTerrible, []) \<and>
   GetLabels (service ownedElsewhere) ''bar'' = Inl validationError \<and>
   fallbackTriggering validationError \<and>
   snd (Get ownedElsewhere ''bar'') \<noteq> [] \<and>
   snd (Set_labels ownedElsewhere ''bar'' [''k1'' \<mapsto> ''v1'']) \<noteq> [] \<and>
   snd (Unset ownedElsewhere ''bar'' [''k1'']) \<noteq> []"
proof -
  have b1: "GetLabels (service brokenService) ''bar'' = Inl somethingTerrible"
    and b2: "UpdateLabels (service brokenService) ''bar'' [''k1'' \<mapsto> ''v1''] [] = Some somethingTerrible"
    and b3: "UpdateLabels (service brokenService) ''bar'' Map.empty [''k1''] = Some somethingTerrible"
    by (simp_all add: brokenService_def testManager_def fakeService_def)
  have nf: "\<not> fallbackTriggering somethingTerrible"
    by (simp add: fallbackTriggering_def somethingTerrible_def)
  have o1: "GetLabels (service ownedElsewhere) ''bar'' = Inl validationError"
    and o2: "UpdateLabels (service ownedElsewhere) ''bar'' [''k1'' \<mapsto> ''v1''] [] = Some validationError"
    and o3: "UpdateLabels (service ownedElsewhere) ''bar'' Map.empty [''k1''] = Some validationError"
    by (simp_all add: ownedElsewhere_def testManager_def fakeService_def)
  have f: "fallbackTriggering validationError"
    by (simp add: fallbackTriggering_def validationError_def)
  note broken = fallback_exactly_on_validation_error[of brokenService "''bar''" "[''k1'' \<mapsto> ''v1'']" "[''k1'']"]
  note owned = fallback_exactly_on_validation_error[of ownedElsewhere "''bar''" "[''k1'' \<mapsto> ''v1'']" "[''k1'']"]
  have c1: "Get brokenService ''bar'' = (Inl somethingTerrible, [])"
    using broken b1 nf by blast
  have c2: "Set_labels brokenService ''bar'' [''k1'' \<mapsto> ''v1''] = (Some somethingTerrible, [])"
    using broken b2 nf by blast
  have c3: "Unset brokenService ''bar'' [''k1''] = (Some somethingTerrible, [])"
    using broken b3 nf by blast
  have c4: "snd (Get ownedElsewhere ''bar'') \<noteq> []"
    using owned o1 f by blast
  have c5: "snd (Set_labels ownedElsewhere ''bar'' [''k1'' \<mapsto> ''v1'']) \<noteq> []"
    using owned o2 f by blast
  have c6: "snd (Unset ownedElsewhere ''bar'' [''k1'']) \<noteq> []"
    using owned o3 f by blast
  show ?thesis using b1 nf c1 c2 c3 o1 f c4 c5 c6 by blast
qed

end
